theory Spec2Isabelle
  imports Main "HOL-Library.Char_ord" "HOL-Library.List_Lexorder"
begin

section \<open>Data model\<close>

text \<open>
  A table is the ordered list of its rows. A row has the six columns of the input file
  and the two derived columns. A text cell is \<open>None\<close> where pandas holds NaN.
  The \<open>publish_time\<close> cell is a string as read from the file, a timestamp once
  \<open>pd.to_datetime\<close> has run, or absent (NaN and NaT). Only the calendar date of a
  timestamp is kept. In a table as loaded the two derived cells hold whatever the file
  had under those names; the cleaning overwrites them.
\<close>

record timestamp =
  ts_year :: int
  ts_month :: nat
  ts_day :: nat

datatype pt_cell = PStr string | PTime timestamp | PNA

record paper =
  title :: "string option"
  abstract :: "string option"
  authors :: "string option"
  journal :: "string option"
  source :: "string option"
  publish_time :: pt_cell
  year :: "int option"
  abstract_word_count :: "nat option"

type_synonym table = "paper list"

datatype py_error = ValueError | TypeError | AttributeError | FileNotFoundError

section \<open>Python strings\<close>

text \<open>
  Characters stand for ASCII code points. \<open>str.split()\<close> with no argument cuts at
  runs of whitespace and returns no empty token; \<open>words_from\<close> is its scanning loop,
  the first argument being the token under construction, reversed.
\<close>

definition isspace :: "char \<Rightarrow> bool" where
  "isspace c = (let n = (of_char c :: nat) in (9 \<le> n \<and> n \<le> 13) \<or> (28 \<le> n \<and> n \<le> 32))"

definition isalnum :: "char \<Rightarrow> bool" where
  "isalnum c = (let n = (of_char c :: nat) in
     (48 \<le> n \<and> n \<le> 57) \<or> (65 \<le> n \<and> n \<le> 90) \<or> (97 \<le> n \<and> n \<le> 122))"

definition lower_char :: "char \<Rightarrow> char" where
  "lower_char c = (let n = (of_char c :: nat) in
     if 65 \<le> n \<and> n \<le> 90 then char_of (n + 32) else c)"

definition lower :: "string \<Rightarrow> string" where
  "lower s = map lower_char s"

fun words_from :: "string \<Rightarrow> string \<Rightarrow> string list" where
  "words_from cur [] = (if cur = [] then [] else [rev cur])"
| "words_from cur (c # cs) =
     (if isspace c
      then (if cur = [] then words_from [] cs else rev cur # words_from [] cs)
      else words_from (c # cur) cs)"

definition split :: "string \<Rightarrow> string list" where
  "split s = words_from [] s"

section \<open>pandas column operations\<close>

text \<open>
  \<open>pd.to_datetime(col, errors='coerce')\<close>. The date parser belongs to pandas and is a
  parameter: \<open>parse col s\<close> is the timestamp pandas reads from the string \<open>s\<close> inside
  the column \<open>col\<close> (pandas may infer one format for the whole column), \<open>None\<close> where
  it does not parse. With \<open>errors='coerce'\<close> such a cell becomes NaT; NaN becomes NaT;
  a timestamp stays as it is.
\<close>

fun parse_cell :: "(string \<Rightarrow> timestamp option) \<Rightarrow> pt_cell \<Rightarrow> timestamp option" where
  "parse_cell f (PStr s) = f s"
| "parse_cell f (PTime t) = Some t"
| "parse_cell f PNA = None"

definition to_datetime :: "(pt_cell list \<Rightarrow> string \<Rightarrow> timestamp option) \<Rightarrow> pt_cell list \<Rightarrow> pt_cell list" where
  "to_datetime parse col =
     map (\<lambda>c. case parse_cell (parse col) c of None \<Rightarrow> PNA | Some t \<Rightarrow> PTime t) col"

text \<open>\<open>col.dt.year\<close>: the accessor exists on a datetime column only.\<close>

fun is_PStr :: "pt_cell \<Rightarrow> bool" where
  "is_PStr (PStr s) = True"
| "is_PStr c = False"

fun year_of :: "pt_cell \<Rightarrow> int option" where
  "year_of (PTime t) = Some (ts_year t)"
| "year_of c = None"

definition dt_year :: "pt_cell list \<Rightarrow> py_error + int option list" where
  "dt_year col = (if list_ex is_PStr col then Inl AttributeError else Inr (map year_of col))"

text \<open>\<open>col.astype(int)\<close> raises on a column that holds NaN.\<close>

definition astype_int :: "int option list \<Rightarrow> py_error + int list" where
  "astype_int col = (case those col of None \<Rightarrow> Inl ValueError | Some ys \<Rightarrow> Inr ys)"

definition fillna :: "'a \<Rightarrow> 'a option list \<Rightarrow> 'a list" where
  "fillna d col = map (\<lambda>c. case c of None \<Rightarrow> d | Some v \<Rightarrow> v) col"

definition dropna :: "'a option list \<Rightarrow> 'a list" where
  "dropna col = concat (map (\<lambda>c. case c of None \<Rightarrow> [] | Some v \<Rightarrow> [v]) col)"

section \<open>DataFrame objects\<close>

text \<open>
  DataFrames are mutable objects. The store lists the objects allocated so far, a
  reference is a position in it (a reference in use is below the length of the
  store), and a new object goes to the end. \<open>df.copy()\<close> and
  \<open>df.dropna(subset=['year'])\<close> allocate; \<open>df[c] = values\<close> writes the column of the
  object in place.
\<close>

type_synonym store = "table list"
type_synonym ref = nat

definition alloc :: "store \<Rightarrow> table \<Rightarrow> store \<times> ref" where
  "alloc h t = (h @ [t], length h)"

definition copy :: "store \<Rightarrow> ref \<Rightarrow> store \<times> ref" where
  "copy h r = alloc h (h ! r)"

definition dropna_year :: "store \<Rightarrow> ref \<Rightarrow> store \<times> ref" where
  "dropna_year h r = alloc h (filter (\<lambda>p. year p \<noteq> None) (h ! r))"

definition set_publish_time :: "store \<Rightarrow> ref \<Rightarrow> pt_cell list \<Rightarrow> store" where
  "set_publish_time h r vs = h[r := map (\<lambda>(p, v). p\<lparr>publish_time := v\<rparr>) (zip (h ! r) vs)]"

definition set_year :: "store \<Rightarrow> ref \<Rightarrow> int option list \<Rightarrow> store" where
  "set_year h r vs = h[r := map (\<lambda>(p, v). p\<lparr>year := v\<rparr>) (zip (h ! r) vs)]"

definition set_abstract_word_count :: "store \<Rightarrow> ref \<Rightarrow> nat option list \<Rightarrow> store" where
  "set_abstract_word_count h r vs =
     h[r := map (\<lambda>(p, v). p\<lparr>abstract_word_count := v\<rparr>) (zip (h ! r) vs)]"

definition set_journal :: "store \<Rightarrow> ref \<Rightarrow> string option list \<Rightarrow> store" where
  "set_journal h r vs = h[r := map (\<lambda>(p, v). p\<lparr>journal := v\<rparr>) (zip (h ! r) vs)]"

section \<open>analysis.py: clean\_and\_prepare\_data\<close>

text \<open>
  The function takes the store and the reference \<open>df\<close> of its argument and returns the
  store and the reference of \<open>df_clean\<close>, or the exception raised. Printing is left out.
\<close>

definition clean_and_prepare_data ::
  "(pt_cell list \<Rightarrow> string \<Rightarrow> timestamp option) \<Rightarrow> store \<Rightarrow> ref \<Rightarrow> py_error + (store \<times> ref)" where
  "clean_and_prepare_data parse h df =
     (let (h1, df_clean) = copy h df;
          h2 = set_publish_time h1 df_clean
                 (to_datetime parse (map publish_time (h1 ! df_clean)))
      in case dt_year (map publish_time (h2 ! df_clean)) of
           Inl e \<Rightarrow> Inl e
         | Inr ys \<Rightarrow>
             (let h3 = set_year h2 df_clean ys;
                  (h4, df_clean) = dropna_year h3 df_clean
              in case astype_int (map year (h4 ! df_clean)) of
                   Inl e \<Rightarrow> Inl e
                 | Inr ns \<Rightarrow>
                     (let h5 = set_year h4 df_clean (map Some ns);
                          h6 = set_abstract_word_count h5 df_clean
                                 (map (\<lambda>x. Some (length (split x)))
                                    (fillna [] (map abstract (h5 ! df_clean))));
                          h7 = set_journal h6 df_clean
                                 (map Some (fillna ''Unknown'' (map journal (h6 ! df_clean))))
                      in Inr (h7, df_clean))))"

text \<open>
  The table a call returns for the table \<open>t\<close>: the call runs in a store that holds \<open>t\<close>
  alone, and an exception gives \<open>None\<close>.
\<close>

definition cleaned :: "(pt_cell list \<Rightarrow> string \<Rightarrow> timestamp option) \<Rightarrow> table \<Rightarrow> table option" where
  "cleaned parse t =
     (case clean_and_prepare_data parse [t] 0 of
        Inl e \<Rightarrow> None
      | Inr (h, r) \<Rightarrow> Some (h ! r))"

section \<open>Counting\<close>

text \<open>
  \<open>collections.Counter\<close> is a dictionary, and a dictionary keeps its keys in the order
  of their first insertion: an association list, a new key going to the end.
  \<open>most_common(n)\<close> sorts the items by count, largest first, items of equal count
  staying in dictionary order, and returns the first \<open>n\<close>.
\<close>

fun counter_add :: "('a \<times> nat) list \<Rightarrow> 'a \<Rightarrow> ('a \<times> nat) list" where
  "counter_add [] k = [(k, 1)]"
| "counter_add ((k', c) # kcs) k =
     (if k' = k then (k', Suc c) # kcs else (k', c) # counter_add kcs k)"

definition Counter :: "'a list \<Rightarrow> ('a \<times> nat) list" where
  "Counter xs = foldl counter_add [] xs"

definition by_count_desc :: "('a \<times> nat) list \<Rightarrow> ('a \<times> nat) list" where
  "by_count_desc kcs = sort_key (\<lambda>(k, c). - int c) kcs"

definition most_common :: "nat \<Rightarrow> ('a \<times> nat) list \<Rightarrow> ('a \<times> nat) list" where
  "most_common n kcs = take n (by_count_desc kcs)"

text \<open>
  \<open>Series.value_counts()\<close> leaves NaN out, counts each distinct value and sorts by
  count, largest first. pandas does not promise an order among values of equal count;
  the model keeps them in order of first appearance. \<open>sort_index()\<close> sorts the result
  by value, \<open>head(n)\<close> keeps its first \<open>n\<close> entries.
\<close>

definition value_counts :: "'a option list \<Rightarrow> ('a \<times> nat) list" where
  "value_counts col = by_count_desc (Counter (dropna col))"

definition sort_index :: "('a::linorder \<times> nat) list \<Rightarrow> ('a \<times> nat) list" where
  "sort_index kcs = sort_key fst kcs"

definition head :: "nat \<Rightarrow> 'a list \<Rightarrow> 'a list" where
  "head n xs = take n xs"

section \<open>analysis.py: perform\_analysis\<close>

definition papers_by_year :: "table \<Rightarrow> (int \<times> nat) list" where
  "papers_by_year df = sort_index (value_counts (map year df))"

definition top_journals :: "table \<Rightarrow> (string \<times> nat) list" where
  "top_journals df = head 10 (value_counts (map journal df))"

definition top_sources :: "nat \<Rightarrow> table \<Rightarrow> (string \<times> nat) list" where
  "top_sources n df = head n (value_counts (map source df))"

definition stop_words :: "string list" where
  "stop_words = [''a'', ''the'', ''and'', ''or'', ''of'', ''in'', ''to'', ''for'', ''with'',
     ''is'', ''on'', ''at'', ''by'', ''from'', ''as'', ''an'', ''be'', ''this'',
     ''that'', ''are'', ''have'', ''has'', ''was'', ''were'', ''been'']"

text \<open>
  The loop over the titles, the same in both files but for the stop words:
  each title is lower-cased and split, each token keeps its alphanumeric characters,
  and a token is appended when it is not empty, not a stop word and longer than 3.
\<close>

definition keep_word :: "string list \<Rightarrow> string \<Rightarrow> bool" where
  "keep_word stop word = (word \<noteq> [] \<and> word \<notin> set stop \<and> length word > 3)"

definition all_words :: "string list \<Rightarrow> table \<Rightarrow> string list" where
  "all_words stop df =
     concat (map (\<lambda>title. filter (keep_word stop) (map (filter isalnum) (split (lower title))))
               (dropna (map title df)))"

definition top_words :: "string list \<Rightarrow> nat \<Rightarrow> table \<Rightarrow> (string \<times> nat) list" where
  "top_words stop k df = most_common k (Counter (all_words stop df))"

record results =
  res_papers_by_year :: "(int \<times> nat) list"
  res_top_journals :: "(string \<times> nat) list"
  res_top_sources :: "(string \<times> nat) list"
  res_top_words :: "(string \<times> nat) list"

text \<open>
  The charts are drawn by pandas and matplotlib; the drawing calls, and what they may
  raise on a summary with no entry, are left out, but for line 171,
  \<open>words, counts = zip(*top_words)\<close>: on an empty \<open>top_words\<close> the \<open>zip\<close> yields
  nothing and the unpacking into two names raises ValueError.
\<close>

definition perform_analysis :: "table \<Rightarrow> py_error + results" where
  "perform_analysis df_clean =
     (let papers_by_year = papers_by_year df_clean;
          top_journals = top_journals df_clean;
          top_sources = top_sources 10 df_clean;
          top_words = top_words stop_words 15 df_clean
      in if top_words = [] then Inl ValueError
         else Inr \<lparr>res_papers_by_year = papers_by_year, res_top_journals = top_journals,
                   res_top_sources = top_sources, res_top_words = top_words\<rparr>)"

section \<open>app.py\<close>

text \<open>
  The file system maps a path to the table \<open>pd.read_csv\<close> reads there, \<open>None\<close> when
  there is no such file. What the surface shows is the list of its Streamlit calls;
  a chart is the call with the data it plots. The widgets' values (page, year range,
  selected journals) are inputs. Titles and static text, the figures computed in
  floating point (average abstract length, histogram, statistics table) and the
  sorting, truncation and search of the third page are left out: \<open>Sample_page\<close> stands
  for that page, with the table it draws from. What a Streamlit widget may raise on
  its own arguments is left out as well.
\<close>

type_synonym files = "string \<Rightarrow> table option"

datatype page = Dashboard | Detailed_Analysis | Data_Sample

datatype st_call =
    St_error string
  | Sidebar_slider int int
  | Sidebar_multiselect "string option list"
  | Sidebar_metric string nat
  | Metric string nat
  | Metric_years int int
  | Year_chart "(int \<times> nat) list"
  | Count_chart string "(string \<times> nat) list"
  | Sample_page table

definition read_csv :: "files \<Rightarrow> string \<Rightarrow> py_error + table" where
  "read_csv fs path = (case fs path of None \<Rightarrow> Inl FileNotFoundError | Some t \<Rightarrow> Inr t)"

definition missing_file_message :: string where
  "missing_file_message =
     ''Please run the analysis script first to generate '' @ [CHR 0x27] @
     ''cord19_cleaned.csv'' @ [CHR 0x27]"

definition load_data ::
  "(pt_cell list \<Rightarrow> string \<Rightarrow> timestamp option) \<Rightarrow> files \<Rightarrow> py_error + (st_call list \<times> table option)" where
  "load_data parse fs =
     (case read_csv fs ''cord19_cleaned.csv'' of
        Inr df \<Rightarrow>
          Inr ([], Some (map (\<lambda>(p, v). p\<lparr>publish_time := v\<rparr>)
                          (zip df (to_datetime parse (map publish_time df)))))
      | Inl FileNotFoundError \<Rightarrow> Inr ([St_error missing_file_message], None)
      | Inl e \<Rightarrow> Inl e)"

text \<open>
  The comparisons and \<open>isin\<close> give a column of booleans, False at NaN; \<open>&\<close> joins
  two such columns; \<open>df[mask]\<close> keeps the rows where the mask holds.
\<close>

definition ge_col :: "int option list \<Rightarrow> int \<Rightarrow> bool list" where
  "ge_col col v = map (\<lambda>c. case c of None \<Rightarrow> False | Some y \<Rightarrow> v \<le> y) col"

definition le_col :: "int option list \<Rightarrow> int \<Rightarrow> bool list" where
  "le_col col v = map (\<lambda>c. case c of None \<Rightarrow> False | Some y \<Rightarrow> y \<le> v) col"

definition isin :: "string option list \<Rightarrow> string list \<Rightarrow> bool list" where
  "isin col vs = map (\<lambda>c. case c of None \<Rightarrow> False | Some j \<Rightarrow> j \<in> set vs) col"

definition and_col :: "bool list \<Rightarrow> bool list \<Rightarrow> bool list" where
  "and_col xs ys = map (\<lambda>(x, y). x \<and> y) (zip xs ys)"

definition select_rows :: "table \<Rightarrow> bool list \<Rightarrow> table" where
  "select_rows df keep = map fst (filter snd (zip df keep))"

definition df_filtered :: "table \<Rightarrow> int \<times> int \<Rightarrow> string list \<Rightarrow> table" where
  "df_filtered df year_range selected_journals =
     select_rows df
       (and_col (and_col (ge_col (map year df) (fst year_range))
                         (le_col (map year df) (snd year_range)))
                (isin (map journal df) selected_journals))"

definition app_stop_words :: "string list" where
  "app_stop_words = [''a'', ''the'', ''and'', ''or'', ''of'', ''in'', ''to'', ''for'', ''with'',
     ''is'', ''on'', ''at'', ''by'', ''from'', ''as'', ''an'', ''be'', ''this'',
     ''that'', ''are'', ''have'', ''has'', ''was'', ''were'', ''been'', ''covid'',
     ''coronavirus'', ''virus'', ''sars'', ''cov'', ''19'', ''disease'']"

text \<open>
  \<open>int(col.min())\<close> and \<open>int(col.max())\<close>: the minimum of a column with no value is
  NaN, and \<open>int\<close> of NaN raises ValueError.
\<close>

definition year_bounds :: "table \<Rightarrow> py_error + (int \<times> int)" where
  "year_bounds df =
     (case dropna (map year df) of
        [] \<Rightarrow> Inl ValueError
      | y # ys \<Rightarrow> Inr (fold min ys y, fold max ys y))"

text \<open>
  \<open>sorted(df['journal'].unique())\<close>: \<open>unique\<close> keeps NaN as a value, and \<open>sorted\<close>
  raises TypeError when it has to compare NaN with a string.
\<close>

definition all_journals :: "table \<Rightarrow> py_error + string option list" where
  "all_journals df =
     (let u = remdups (map journal df)
      in if None \<in> set u
         then (if length u > 1 then Inl TypeError else Inr u)
         else Inr (map Some (sort (dropna u))))"

definition render_page :: "page \<Rightarrow> table \<Rightarrow> py_error + st_call list" where
  "render_page pg shown =
     (case pg of
        Dashboard \<Rightarrow>
          (case year_bounds shown of
             Inl e \<Rightarrow> Inl e
           | Inr (lo, hi) \<Rightarrow>
               Inr [Metric ''Total Papers'' (length shown),
                    Metric ''Unique Journals'' (length (remdups (dropna (map journal shown)))),
                    Metric_years lo hi,
                    Year_chart (papers_by_year shown),
                    Count_chart ''Top 10 Publishing Journals'' (top_journals shown),
                    Count_chart ''Top Publishing Sources'' (top_sources 8 shown)])
      | Detailed_Analysis \<Rightarrow>
          Inr [Count_chart ''Top 20 Words in Paper Titles'' (top_words app_stop_words 20 shown),
               Year_chart (papers_by_year shown)]
      | Data_Sample \<Rightarrow> Inr [Sample_page shown])"

definition app ::
  "(pt_cell list \<Rightarrow> string \<Rightarrow> timestamp option) \<Rightarrow> files \<Rightarrow> page \<Rightarrow> int \<times> int \<Rightarrow> string list
     \<Rightarrow> py_error + st_call list" where
  "app parse fs pg year_range selected_journals =
     (case load_data parse fs of
        Inl e \<Rightarrow> Inl e
      | Inr (out, None) \<Rightarrow> Inr out
      | Inr (out, Some df) \<Rightarrow>
          (case year_bounds df of
             Inl e \<Rightarrow> Inl e
           | Inr (min_year, max_year) \<Rightarrow>
               (case all_journals df of
                  Inl e \<Rightarrow> Inl e
                | Inr journals \<Rightarrow>
                    (let df_filtered = df_filtered df year_range selected_journals;
                         sidebar = [Sidebar_slider min_year max_year,
                                    Sidebar_multiselect journals,
                                    Sidebar_metric ''Filtered Papers'' (length df_filtered),
                                    Sidebar_metric ''Total Papers'' (length df)]
                     in case render_page pg df_filtered of
                          Inl e \<Rightarrow> Inl e
                        | Inr body \<Rightarrow> Inr (out @ sidebar @ body)))))"

section \<open>A date parser to run the cleaning\<close>

text \<open>
  To evaluate the cleaning on a concrete table the parser must be given. \<open>iso_date\<close>
  reads the calendar dates of ISO 8601, \<open>YYYY-MM-DD\<close>, which is how the data set writes
  \<open>publish_time\<close>, within the years a pandas timestamp can hold, and nothing else.
\<close>

definition digit :: "char \<Rightarrow> nat option" where
  "digit c = (let n = (of_char c :: nat) in if 48 \<le> n \<and> n \<le> 57 then Some (n - 48) else None)"

definition leap_year :: "nat \<Rightarrow> bool" where
  "leap_year y = (y mod 4 = 0 \<and> (y mod 100 \<noteq> 0 \<or> y mod 400 = 0))"

definition days_in_month :: "nat \<Rightarrow> nat \<Rightarrow> nat" where
  "days_in_month y m =
     (if m = 2 then (if leap_year y then 29 else 28)
      else if m = 4 \<or> m = 6 \<or> m = 9 \<or> m = 11 then 30 else 31)"

definition iso_date :: "pt_cell list \<Rightarrow> string \<Rightarrow> timestamp option" where
  "iso_date col s =
     (case s of
        [y1, y2, y3, y4, a, m1, m2, b, d1, d2] \<Rightarrow>
          (case those (map digit [y1, y2, y3, y4, m1, m2, d1, d2]) of
             Some [n1, n2, n3, n4, n5, n6, n7, n8] \<Rightarrow>
               (let y = 1000 * n1 + 100 * n2 + 10 * n3 + n4;
                    m = 10 * n5 + n6;
                    d = 10 * n7 + n8
                in if a = CHR ''-'' \<and> b = CHR ''-'' \<and> 1678 \<le> y \<and> y \<le> 2261
                      \<and> 1 \<le> m \<and> m \<le> 12 \<and> 1 \<le> d \<and> d \<le> days_in_month y m
                   then Some \<lparr>ts_year = int y, ts_month = m, ts_day = d\<rparr>
                   else None)
           | _ \<Rightarrow> None)
      | _ \<Rightarrow> None)"

section \<open>What the cleaning computes\<close>

text \<open>
  The cleaning in the words of the specification. \<open>parsed\<close> is the date of a row, if
  its \<open>publish_time\<close> parses. A row without a date is dropped; a row with the date \<open>d\<close>
  is kept, in its place, with the year of \<open>d\<close>, the word count of its abstract and
  its journal, "Unknown" where the journal is absent. \<open>dated\<close> is the state in which
  the call leaves the copy it made of its argument.
\<close>

definition parsed :: "(pt_cell list \<Rightarrow> string \<Rightarrow> timestamp option) \<Rightarrow> table \<Rightarrow> paper \<Rightarrow> timestamp option" where
  "parsed parse t p = parse_cell (parse (map publish_time t)) (publish_time p)"

definition word_count :: "string option \<Rightarrow> nat" where
  "word_count a = length (split (case a of None \<Rightarrow> [] | Some x \<Rightarrow> x))"

definition clean_row :: "timestamp \<Rightarrow> paper \<Rightarrow> paper" where
  "clean_row d p =
     p\<lparr>publish_time := PTime d, year := Some (ts_year d),
       abstract_word_count := Some (word_count (abstract p)),
       journal := Some (case journal p of None \<Rightarrow> ''Unknown'' | Some j \<Rightarrow> j)\<rparr>"

definition clean_spec :: "(pt_cell list \<Rightarrow> string \<Rightarrow> timestamp option) \<Rightarrow> table \<Rightarrow> table" where
  "clean_spec parse t =
     concat (map (\<lambda>p. case parsed parse t p of None \<Rightarrow> [] | Some d \<Rightarrow> [clean_row d p]) t)"

definition dated_row :: "timestamp option \<Rightarrow> paper \<Rightarrow> paper" where
  "dated_row d p = (case d of None \<Rightarrow> p\<lparr>publish_time := PNA, year := None\<rparr>
                     | Some t \<Rightarrow> p\<lparr>publish_time := PTime t, year := Some (ts_year t)\<rparr>)"

definition dated :: "(pt_cell list \<Rightarrow> string \<Rightarrow> timestamp option) \<Rightarrow> table \<Rightarrow> table" where
  "dated parse t = map (\<lambda>p. dated_row (parsed parse t p) p) t"

text \<open>
  The number of whitespace-separated tokens of a string, counted without splitting it:
  a token starts at each character that is not whitespace and stands first or after
  whitespace.
\<close>

fun token_starts :: "bool \<Rightarrow> string \<Rightarrow> nat" where
  "token_starts after_space [] = 0"
| "token_starts after_space (c # cs) =
     (if \<not> isspace c \<and> after_space then 1 else 0) + token_starts (isspace c) cs"

definition token_count :: "string \<Rightarrow> nat" where
  "token_count s = token_starts True s"

text \<open>Test tables: the scenarios of the specification.\<close>

definition paper0 :: paper where
  "paper0 = \<lparr>title = None, abstract = None, authors = None, journal = None,
              source = Some ''PMC'', publish_time = PStr ''2020-03-15'', year = None,
              abstract_word_count = None\<rparr>"

definition date_scenario :: table where
  "date_scenario = [paper0\<lparr>title := Some ''first'', publish_time := PStr ''not a date''\<rparr>,
                    paper0\<lparr>title := Some ''second''\<rparr>]"

definition abstract_scenario :: table where
  "abstract_scenario = [paper0\<lparr>abstract := Some ''SARS-CoV-2 causes severe disease''\<rparr>, paper0]"

definition title_scenario :: table where
  "title_scenario = [paper0\<lparr>title := Some ''COVID-19 Disease Spread''\<rparr>,
                     paper0\<lparr>title := Some ''Disease spread patterns''\<rparr>]"

definition sample :: table where
  "sample = map (\<lambda>(s, j, y). paper0\<lparr>source := Some s, journal := Some j, year := Some y,
                                  publish_time := PTime \<lparr>ts_year = y, ts_month = 1, ts_day = 1\<rparr>,
                                  abstract_word_count := Some 0\<rparr>)
     [(''s1'', ''Lancet'', 2020), (''s2'', ''Unknown'', 2019), (''s3'', ''Lancet'', 2020),
      (''s4'', ''BMJ'', 2021), (''s5'', ''Unknown'', 2020), (''s6'', ''Lancet'', 2019),
      (''s7'', ''Nature'', 2020), (''s8'', ''Unknown'', 2021), (''s9'', ''BMJ'', 2020),
      (''s9'', ''Cell'', 2020)]"

definition untitled :: table where
  "untitled = [paper0\<lparr>journal := Some ''Unknown'',
                      publish_time := PTime \<lparr>ts_year = 2020, ts_month = 3, ts_day = 15\<rparr>,
                      year := Some 2020, abstract_word_count := Some 0\<rparr>]"

definition sample_files :: files where
  "sample_files path = (if path = ''cord19_cleaned.csv'' then Some sample else None)"

definition no_files :: files where
  "no_files path = None"

section \<open>Top-N summaries\<close>

text \<open>
  What the specification asks of a top-\<open>n\<close> summary \<open>res\<close> of the values \<open>xs\<close>: at most
  \<open>n\<close> entries, counts in descending order, each value once with the number of its
  occurrences, and no count in the summary below the count of a value left out.
\<close>

definition top_n_of :: "nat \<Rightarrow> 'a list \<Rightarrow> ('a \<times> nat) list \<Rightarrow> bool" where
  "top_n_of n xs res =
     (length res \<le> n
      \<and> sorted_wrt (\<lambda>a b. snd b \<le> snd a) res
      \<and> distinct (map fst res)
      \<and> (\<forall>(k, c) \<in> set res. k \<in> set xs \<and> c = count_list xs k)
      \<and> (\<forall>k' \<in> set xs. k' \<notin> fst ` set res \<longrightarrow> (\<forall>(k, c) \<in> set res. count_list xs k' \<le> c)))"

section \<open>Lemmas on strings\<close>

lemma length_words_from:
  "length (words_from cur s) = token_starts (cur = []) s + (if cur = [] then 0 else 1)"
  by (induction s arbitrary: cur) auto

lemma length_split: "length (split s) = token_count s"
  by (simp add: split_def token_count_def length_words_from)

lemma words_from_tokens:
  "list_all (\<lambda>c. \<not> isspace c) cur
     \<Longrightarrow> list_all (\<lambda>w. w \<noteq> [] \<and> list_all (\<lambda>c. \<not> isspace c) w) (words_from cur s)"
  by (induction s arbitrary: cur) simp_all

lemma split_tokens: "list_all (\<lambda>w. w \<noteq> [] \<and> list_all (\<lambda>c. \<not> isspace c) w) (split s)"
  by (simp add: split_def words_from_tokens)

lemma concat_words_from:
  "concat (words_from cur s) = rev cur @ filter (\<lambda>c. \<not> isspace c) s"
  by (induction s arbitrary: cur) auto

lemma concat_split: "concat (split s) = filter (\<lambda>c. \<not> isspace c) s"
  by (simp add: split_def concat_words_from)

section \<open>Lemmas on the cleaning\<close>

lemma zip_map_same: "map (\<lambda>(p, v). u p v) (zip t (map f t)) = map (\<lambda>p. u p (f p)) t"
  by (induction t) auto

lemma zip_map_both: "map (\<lambda>(p, v). u p v) (zip (map g t) (map f t)) = map (\<lambda>p. u (g p) (f p)) t"
  by (induction t) auto

lemma those_map_Some: "those (map Some xs) = Some xs"
  by (induction xs) auto

lemma store_last: "(h @ [a])[length h := x] = h @ [x]" "(h @ [a]) ! length h = a"
  by simp_all

lemma store_last2: "(h @ [a, b])[Suc (length h) := x] = h @ [a, x]" "(h @ [a, b]) ! Suc (length h) = b"
  by (simp_all add: list_update_append nth_append)

lemma no_PStr_to_datetime: "\<not> list_ex is_PStr (to_datetime parse col)"
  by (auto simp: to_datetime_def list_ex_iff split: option.splits)

lemma step_publish_time:
  "map (\<lambda>(p, v). p\<lparr>publish_time := v\<rparr>) (zip t (to_datetime parse (map publish_time t)))
     = map (\<lambda>p. p\<lparr>publish_time := (case parsed parse t p of None \<Rightarrow> PNA | Some d \<Rightarrow> PTime d)\<rparr>) t"
  unfolding to_datetime_def parsed_def map_map comp_def by (rule zip_map_same)

lemma step_year:
  "map (\<lambda>(p, v). p\<lparr>year := v\<rparr>)
     (zip (map (\<lambda>p. p\<lparr>publish_time := (case parsed parse t p of None \<Rightarrow> PNA | Some d \<Rightarrow> PTime d)\<rparr>) t)
          (map year_of (map publish_time
             (map (\<lambda>p. p\<lparr>publish_time := (case parsed parse t p of None \<Rightarrow> PNA | Some d \<Rightarrow> PTime d)\<rparr>) t))))
     = dated parse t"
  unfolding map_map comp_def zip_map_both
  by (auto simp: dated_def dated_row_def split: option.splits)

lemma filter_dated:
  "filter (\<lambda>p. year p \<noteq> None) (dated parse t)
     = concat (map (\<lambda>p. case parsed parse t p of None \<Rightarrow> [] | Some d \<Rightarrow> [p\<lparr>publish_time := PTime d, year := Some (ts_year d)\<rparr>]) t)"
proof -
  have "filter (\<lambda>p. year p \<noteq> None) (map (\<lambda>p. dated_row (f p) p) u)
     = concat (map (\<lambda>p. case f p of None \<Rightarrow> [] | Some d \<Rightarrow> [p\<lparr>publish_time := PTime d, year := Some (ts_year d)\<rparr>]) u)" for f u
    by (induction u) (auto simp: dated_row_def split: option.splits)
  then show ?thesis by (simp add: dated_def)
qed

lemma step_astype:
  assumes "u = filter (\<lambda>p. year p \<noteq> None) (dated parse t)"
  shows "astype_int (map year u) = Inr (map (\<lambda>p. the (year p)) u)"
    and "map (\<lambda>(p, v). p\<lparr>year := v\<rparr>) (zip u (map Some (map (\<lambda>p. the (year p)) u))) = u"
proof -
  have all: "\<forall>p \<in> set u. year p \<noteq> None" using assms by simp
  then have eq: "map year u = map Some (map (\<lambda>p. the (year p)) u)" by (induction u) auto
  show "astype_int (map year u) = Inr (map (\<lambda>p. the (year p)) u)"
    unfolding astype_int_def by (subst eq) (simp only: those_map_Some option.case)
  have "map (\<lambda>(p, v). p\<lparr>year := v\<rparr>) (zip u (map (\<lambda>p. Some (the (year p))) u)) = map (\<lambda>p. p\<lparr>year := Some (the (year p))\<rparr>) u"
    by (rule zip_map_same)
  also have "\<dots> = u" using all by (induction u) auto
  finally show "map (\<lambda>(p, v). p\<lparr>year := v\<rparr>) (zip u (map Some (map (\<lambda>p. the (year p)) u))) = u"
    by (simp add: comp_def)
qed

lemma step_finish:
  "map (\<lambda>(p, v). p\<lparr>journal := v\<rparr>)
     (zip (map (\<lambda>(p, v). p\<lparr>abstract_word_count := v\<rparr>)
             (zip u (map (\<lambda>x. Some (length (split x))) (fillna [] (map abstract u)))))
          (map Some (fillna ''Unknown'' (map journal
             (map (\<lambda>(p, v). p\<lparr>abstract_word_count := v\<rparr>)
                (zip u (map (\<lambda>x. Some (length (split x))) (fillna [] (map abstract u)))))))))
   = map (\<lambda>p. p\<lparr>abstract_word_count := Some (word_count (abstract p)),
                 journal := Some (case journal p of None \<Rightarrow> ''Unknown'' | Some j \<Rightarrow> j)\<rparr>) u"
  unfolding fillna_def map_map comp_def zip_map_same zip_map_both
  by (simp add: word_count_def)

lemma clean_rows_eq:
  "map (\<lambda>p. p\<lparr>abstract_word_count := Some (word_count (abstract p)),
                 journal := Some (case journal p of None \<Rightarrow> ''Unknown'' | Some j \<Rightarrow> j)\<rparr>)
     (filter (\<lambda>p. year p \<noteq> None) (dated parse t)) = clean_spec parse t"
  unfolding filter_dated clean_spec_def map_concat map_map comp_def
  by (rule arg_cong [where f = concat]) (auto simp: clean_row_def split: option.splits)

lemma clean_store:
  "clean_and_prepare_data parse h df
           = Inr (h @ [dated parse (h ! df), clean_spec parse (h ! df)], Suc (length h))"
proof -
  define t where "t = h ! df"
  define t2 where "t2 = map (\<lambda>p. p\<lparr>publish_time := (case parsed parse t p of None \<Rightarrow> PNA | Some d \<Rightarrow> PTime d)\<rparr>) t"
  define u where "u = filter (\<lambda>p. year p \<noteq> None) (dated parse t)"
  have 1: "copy h df = (h @ [t], length h)"
    by (simp add: copy_def alloc_def t_def)
  have 2: "set_publish_time (h @ [t]) (length h) (to_datetime parse (map publish_time t)) = h @ [t2]"
    by (simp only: set_publish_time_def store_last step_publish_time t2_def)
  have 3: "dt_year (map publish_time t2) = Inr (map year_of (map publish_time t2))"
  proof -
    have "\<not> list_ex is_PStr (map publish_time t2)"
      by (auto simp: t2_def list_ex_iff split: option.splits)
    then show ?thesis by (simp only: dt_year_def if_False)
  qed
  have 4: "set_year (h @ [t2]) (length h) (map year_of (map publish_time t2)) = h @ [dated parse t]"
    by (simp only: set_year_def store_last step_year t2_def)
  have 5: "dropna_year (h @ [dated parse t]) (length h) = (h @ [dated parse t, u], Suc (length h))"
    by (simp add: dropna_year_def alloc_def u_def)
  note a = step_astype [OF u_def]
  have 7: "set_year (h @ [dated parse t, u]) (Suc (length h)) (map Some (map (\<lambda>p. the (year p)) u)) = h @ [dated parse t, u]"
    by (simp only: set_year_def store_last2 a)
  have 8: "set_journal
             (set_abstract_word_count (h @ [dated parse t, u]) (Suc (length h))
               (map (\<lambda>x. Some (length (split x))) (fillna [] (map abstract u))))
             (Suc (length h))
             (map Some (fillna ''Unknown'' (map journal
                (set_abstract_word_count (h @ [dated parse t, u]) (Suc (length h))
                   (map (\<lambda>x. Some (length (split x))) (fillna [] (map abstract u))) ! Suc (length h)))))
           = h @ [dated parse t, clean_spec parse t]"
    by (simp only: set_journal_def set_abstract_word_count_def store_last2 step_finish u_def clean_rows_eq)
  show ?thesis
    unfolding clean_and_prepare_data_def t_def [symmetric]
    by (simp only: 1 2 3 4 5 a 7 8 Let_def prod.case sum.case store_last store_last2)
qed

lemma cleaned_eq: "cleaned parse t = Some (clean_spec parse t)"
  unfolding cleaned_def clean_store by simp

lemma clean_spec_rows:
  assumes "p \<in> set (clean_spec parse t)"
  shows "\<exists>q d. q \<in> set t \<and> parsed parse t q = Some d \<and> p = clean_row d q"
proof -
  from assms obtain q where q: "q \<in> set t"
    and p: "p \<in> set (case parsed parse t q of None \<Rightarrow> [] | Some d \<Rightarrow> [clean_row d q])"
    by (auto simp: clean_spec_def)
  then show ?thesis by (cases "parsed parse t q") auto
qed

lemma clean_row_fixed:
  assumes "publish_time p = PTime d" "year p = Some (ts_year d)"
    "abstract_word_count p = Some (word_count (abstract p))" "journal p = Some j"
  shows "clean_row d p = p"
  using assms by (simp add: clean_row_def)

lemma clean_spec_fixed:
  assumes "\<forall>p \<in> set u. \<exists>d j. publish_time p = PTime d \<and> year p = Some (ts_year d)
             \<and> abstract_word_count p = Some (word_count (abstract p)) \<and> journal p = Some j"
  shows "clean_spec parse u = u"
proof -
  have "concat (map (\<lambda>p. case parse_cell f (publish_time p) of None \<Rightarrow> [] | Some d \<Rightarrow> [clean_row d p]) u) = u" for f
    using assms
  proof (induction u)
    case Nil
    then show ?case by simp
  next
    case (Cons p u)
    then obtain d j where "publish_time p = PTime d" "year p = Some (ts_year d)"
      "abstract_word_count p = Some (word_count (abstract p))" "journal p = Some j"
      by auto
    then have "parse_cell f (publish_time p) = Some d" "clean_row d p = p"
      by (simp_all add: clean_row_fixed)
    with Cons show ?case by simp
  qed
  then show ?thesis by (simp add: clean_spec_def parsed_def)
qed

section \<open>Lemmas on counting\<close>

lemma map_of_counter_add:
  "map_of (counter_add kcs k) = (map_of kcs)(k \<mapsto> (case map_of kcs k of None \<Rightarrow> 1 | Some c \<Rightarrow> Suc c))"
  by (induction kcs) (auto simp: fun_eq_iff)

lemma keys_counter_add:
  "map fst (counter_add kcs k) = (if k \<in> set (map fst kcs) then map fst kcs else map fst kcs @ [k])"
  by (induction kcs) (auto simp: rev_image_eqI)

lemma sum_counter_add: "sum_list (map snd (counter_add kcs k)) = Suc (sum_list (map snd kcs))"
  by (induction kcs) auto

lemma distinct_foldl_counter_add:
  "distinct (map fst kcs) \<Longrightarrow> distinct (map fst (foldl counter_add kcs xs))"
  by (induction xs arbitrary: kcs) (simp_all add: keys_counter_add)

lemma sum_foldl_counter_add:
  "sum_list (map snd (foldl counter_add kcs xs)) = sum_list (map snd kcs) + length xs"
  by (induction xs arbitrary: kcs) (simp_all add: sum_counter_add)

lemma map_of_foldl_counter_add:
  "map_of (foldl counter_add kcs xs) k =
     (if count_list xs k = 0 then map_of kcs k
      else Some (count_list xs k + (case map_of kcs k of None \<Rightarrow> 0 | Some c \<Rightarrow> c)))"
  by (induction xs arbitrary: kcs) (auto simp: map_of_counter_add split: option.splits)

lemma distinct_Counter: "distinct (map fst (Counter xs))"
  by (simp add: Counter_def distinct_foldl_counter_add)

lemma sum_Counter: "sum_list (map snd (Counter xs)) = length xs"
  by (simp add: Counter_def sum_foldl_counter_add)

lemma set_Counter: "(k, c) \<in> set (Counter xs) \<longleftrightarrow> k \<in> set xs \<and> c = count_list xs k"
proof -
  have "(k, c) \<in> set (Counter xs) \<longleftrightarrow> map_of (Counter xs) k = Some c"
    using distinct_Counter [of xs] by simp
  also have "\<dots> \<longleftrightarrow> k \<in> set xs \<and> c = count_list xs k"
    by (auto simp: Counter_def map_of_foldl_counter_add count_list_0_iff)
  finally show ?thesis .
qed

lemma sum_insort_key: "sum_list (map g (insort_key f x xs)) = (g x :: nat) + sum_list (map g xs)"
  by (induction xs) auto

lemma sum_sort_key: "sum_list (map g (sort_key f xs)) = sum_list (map (g :: 'a \<Rightarrow> nat) xs)"
  by (induction xs) (simp_all add: sum_insort_key)

lemma distinct_keys_sort_key: "distinct (map g (sort_key f xs)) = distinct (map g xs)"
  by (simp add: distinct_map)

lemma set_by_count_desc: "set (by_count_desc kcs) = set kcs"
  by (simp add: by_count_desc_def)

lemma sorted_by_count_desc: "sorted_wrt (\<lambda>a b. snd b \<le> snd a) (by_count_desc kcs)"
proof -
  have "sorted (map (\<lambda>(k, c). - int c) (by_count_desc kcs))"
    unfolding by_count_desc_def by (rule sorted_sort_key)
  then show ?thesis
    by (simp add: sorted_map case_prod_unfold)
qed

lemma top_n_of_take:
  "top_n_of n xs (take n (by_count_desc (Counter xs)))"
proof -
  define full where "full = by_count_desc (Counter xs)"
  have mem: "(k, c) \<in> set full \<longleftrightarrow> k \<in> set xs \<and> c = count_list xs k" for k c
    by (simp add: full_def set_by_count_desc set_Counter)
  have dist: "distinct (map fst full)"
    by (simp add: full_def by_count_desc_def distinct_keys_sort_key distinct_Counter)
  have "sorted_wrt (\<lambda>a b. snd b \<le> snd a) (take n full @ drop n full)"
    by (simp add: full_def sorted_by_count_desc)
  then have srt: "sorted_wrt (\<lambda>a b. snd b \<le> snd a) (take n full)"
    and cross: "\<forall>a \<in> set (take n full). \<forall>b \<in> set (drop n full). snd b \<le> snd a"
    unfolding sorted_wrt_append by auto
  have "distinct (map fst (take n full))"
    using dist by (simp add: take_map [symmetric])
  moreover have "\<forall>(k, c) \<in> set (take n full). k \<in> set xs \<and> c = count_list xs k"
    using mem by (auto dest: in_set_takeD)
  moreover have "\<forall>k' \<in> set xs. k' \<notin> fst ` set (take n full)
      \<longrightarrow> (\<forall>(k, c) \<in> set (take n full). count_list xs k' \<le> c)"
  proof (rule ballI, rule impI)
    fix k' assume k': "k' \<in> set xs" and out: "k' \<notin> fst ` set (take n full)"
    have "set full = set (take n full) \<union> set (drop n full)"
      by (metis append_take_drop_id set_append)
    moreover have "(k', count_list xs k') \<in> set full"
      using k' mem by simp
    ultimately have "(k', count_list xs k') \<in> set (drop n full)"
      using out by (auto simp: image_iff)
    with cross show "\<forall>(k, c) \<in> set (take n full). count_list xs k' \<le> c"
      by fastforce
  qed
  ultimately show ?thesis
    using srt by (simp add: top_n_of_def full_def)
qed

lemma count_list_dropna: "count_list (dropna col) v = length (filter (\<lambda>c. c = Some v) col)"
  by (induction col) (auto simp: dropna_def split: option.splits)

lemma length_dropna_all:
  "\<forall>p \<in> set xs. f p \<noteq> None \<Longrightarrow> length (dropna (map f xs)) = length xs"
  by (induction xs) (auto simp: dropna_def)

lemma set_dropna: "v \<in> set (dropna col) \<longleftrightarrow> Some v \<in> set col"
  by (induction col) (auto simp: dropna_def split: option.splits)

lemma count_dropna_year:
  "count_list (dropna (map year df)) y = length (filter (\<lambda>p. year p = Some y) df)"
  by (simp add: count_list_dropna filter_map comp_def)

lemma papers_by_year_props:
  "sorted_wrt (<) (map fst (papers_by_year df))"
  "(y, n) \<in> set (papers_by_year df) \<longleftrightarrow>
     (\<exists>p \<in> set df. year p = Some y) \<and> n = length (filter (\<lambda>p. year p = Some y) df)"
  "sum_list (map snd (papers_by_year df)) = length (dropna (map year df))"
proof -
  let ?c = "Counter (dropna (map year df))"
  have "sorted (map fst (papers_by_year df))"
    unfolding papers_by_year_def sort_index_def by (rule sorted_sort_key)
  moreover have "distinct (map fst (papers_by_year df))"
    by (simp add: papers_by_year_def sort_index_def value_counts_def by_count_desc_def
        distinct_keys_sort_key distinct_Counter)
  ultimately show "sorted_wrt (<) (map fst (papers_by_year df))"
    by (simp add: strict_sorted_iff)
  have "set (papers_by_year df) = set ?c"
    by (simp add: papers_by_year_def sort_index_def value_counts_def by_count_desc_def)
  then show "(y, n) \<in> set (papers_by_year df) \<longleftrightarrow>
     (\<exists>p \<in> set df. year p = Some y) \<and> n = length (filter (\<lambda>p. year p = Some y) df)"
    by (simp add: set_Counter set_dropna count_dropna_year image_iff) (metis)
  show "sum_list (map snd (papers_by_year df)) = length (dropna (map year df))"
    by (simp add: papers_by_year_def sort_index_def value_counts_def by_count_desc_def
        sum_sort_key sum_Counter)
qed

lemma value_counts_absent: "list_all (\<lambda>c. c = None) col \<Longrightarrow> value_counts col = []"
proof -
  assume "list_all (\<lambda>c. c = None) col"
  then have "dropna col = []" by (induction col) (auto simp: dropna_def)
  then show ?thesis by (simp add: value_counts_def by_count_desc_def Counter_def)
qed

lemma absent_columns_empty:
  "list_all (\<lambda>p. year p = None) df \<Longrightarrow> papers_by_year df = []"
  "list_all (\<lambda>p. journal p = None) df \<Longrightarrow> top_journals df = []"
  "list_all (\<lambda>p. source p = None) df \<Longrightarrow> top_sources n df = []"
  by (simp_all add: papers_by_year_def top_journals_def top_sources_def sort_index_def head_def
      value_counts_absent list_all_iff)

lemma no_titles_no_words:
  assumes "list_all (\<lambda>p. title p = None) df"
  shows "top_words stop k df = []"
proof -
  from assms have "dropna (map title df) = []"
    by (induction df) (auto simp: dropna_def)
  then show ?thesis
    by (simp add: top_words_def all_words_def most_common_def by_count_desc_def Counter_def)
qed

lemma no_titles_raises:
  "list_all (\<lambda>p. title p = None) df \<Longrightarrow> perform_analysis df = Inl ValueError"
  by (simp add: perform_analysis_def no_titles_no_words)

section \<open>Lemmas on the interactive filter\<close>

lemma df_filtered_filter:
  "df_filtered df (lo, hi) S =
     filter (\<lambda>p. (\<exists>y. year p = Some y \<and> lo \<le> y \<and> y \<le> hi) \<and> (\<exists>j. journal p = Some j \<and> j \<in> set S)) df"
  unfolding df_filtered_def select_rows_def and_col_def ge_col_def le_col_def isin_def
  by (induction df) (auto split: option.splits)

section \<open>The cleaning: claims\<close>

text \<open>
  C1. For every input table the cleaning returns a table, and in it every record has a
  year and a journal: a record whose \<open>publish_time\<close> does not parse is dropped, a
  record whose \<open>publish_time\<close> parses is kept, in its place, with the calendar year of
  its date, and an absent journal is replaced by "Unknown".
\<close>

theorem clean_postcondition:
  "\<exists>out. cleaned parse t = Some out
     \<and> (\<forall>p \<in> set out. year p \<noteq> None \<and> journal p \<noteq> None)
     \<and> out = concat (map (\<lambda>p. case parsed parse t p of
                                 None \<Rightarrow> []
                               | Some d \<Rightarrow> [p\<lparr>publish_time := PTime d, year := Some (ts_year d),
                                              abstract_word_count := Some (word_count (abstract p)),
                                              journal := Some (case journal p of None \<Rightarrow> ''Unknown'' | Some j \<Rightarrow> j)\<rparr>]) t)"
proof -
  have "\<forall>p \<in> set (clean_spec parse t). year p \<noteq> None \<and> journal p \<noteq> None"
    by (auto dest!: clean_spec_rows simp: clean_row_def)
  moreover have "clean_spec parse t = concat (map (\<lambda>p. case parsed parse t p of
                                 None \<Rightarrow> []
                               | Some d \<Rightarrow> [p\<lparr>publish_time := PTime d, year := Some (ts_year d),
                                              abstract_word_count := Some (word_count (abstract p)),
                                              journal := Some (case journal p of None \<Rightarrow> ''Unknown'' | Some j \<Rightarrow> j)\<rparr>]) t)"
    by (simp only: clean_spec_def clean_row_def)
  ultimately show ?thesis
    by (simp only: cleaned_eq option.inject simp_thms ex_simps)
qed

text \<open>
  The scenario of C1, with ISO dates: the record dated "not a date" is dropped and the
  record dated "2020-03-15" is kept with the year 2020 and the journal "Unknown".
\<close>

theorem clean_postcondition_witness:
  "cleaned iso_date date_scenario
     = Some [paper0\<lparr>title := Some ''second'', journal := Some ''Unknown'',
               publish_time := PTime \<lparr>ts_year = 2020, ts_month = 3, ts_day = 15\<rparr>,
               year := Some 2020, abstract_word_count := Some 0\<rparr>]"
proof -
  have "concat (map (\<lambda>p. case parsed iso_date date_scenario p of
                            None \<Rightarrow> []
                          | Some d \<Rightarrow> [p\<lparr>publish_time := PTime d, year := Some (ts_year d),
                                         abstract_word_count := Some (word_count (abstract p)),
                                         journal := Some (case journal p of None \<Rightarrow> ''Unknown'' | Some j \<Rightarrow> j)\<rparr>])
                  date_scenario)
        = [paper0\<lparr>title := Some ''second'', journal := Some ''Unknown'',
               publish_time := PTime \<lparr>ts_year = 2020, ts_month = 3, ts_day = 15\<rparr>,
               year := Some 2020, abstract_word_count := Some 0\<rparr>]"
    by code_simp
  with clean_postcondition [of iso_date date_scenario] show ?thesis
    by auto
qed

text \<open>
  C3, as amended. For every record of the cleaned table, \<open>abstract_word_count\<close> is the
  number of whitespace-separated tokens of the abstract, an absent abstract counting as
  the empty string; a record whose abstract is "SARS-CoV-2 causes severe disease" gets
  4, and a record with no abstract gets 0.
\<close>

theorem abstract_word_count_tokens:
  "\<exists>out. cleaned parse t = Some out
     \<and> (\<forall>p \<in> set out. abstract_word_count p
            = Some (token_count (case abstract p of None \<Rightarrow> [] | Some a \<Rightarrow> a)))
     \<and> (\<forall>p \<in> set out. abstract p = Some ''SARS-CoV-2 causes severe disease''
            \<longrightarrow> abstract_word_count p = Some 4)
     \<and> (\<forall>p \<in> set out. abstract p = None \<longrightarrow> abstract_word_count p = Some 0)"
proof -
  have 4: "token_count ''SARS-CoV-2 causes severe disease'' = 4" by code_simp
  have 0: "token_count [] = 0" by (simp add: token_count_def)
  have "\<forall>p \<in> set (clean_spec parse t). abstract_word_count p
            = Some (token_count (case abstract p of None \<Rightarrow> [] | Some a \<Rightarrow> a))"
    by (auto dest!: clean_spec_rows simp: clean_row_def word_count_def length_split)
  then show ?thesis using 4 0 by (simp add: cleaned_eq)
qed

theorem abstract_word_count_tokens_witness:
  "map_option (map abstract) (cleaned iso_date abstract_scenario)
     = Some [Some ''SARS-CoV-2 causes severe disease'', None]
   \<and> map_option (map abstract_word_count) (cleaned iso_date abstract_scenario)
     = Some [Some 4, Some 0]"
proof -
  have "map_option (map abstract) (cleaned iso_date abstract_scenario)
          = Some [Some ''SARS-CoV-2 causes severe disease'', None]"
    by code_simp
  with abstract_word_count_tokens [of iso_date abstract_scenario] show ?thesis
    by auto
qed

text \<open>
  C3 as the specification states it gives the abstract "SARS-CoV-2 causes severe
  disease" the count 6. The abstract has four whitespace-separated tokens.
\<close>

theorem abstract_word_count_counterexample:
  "map_option (map abstract_word_count) (cleaned iso_date abstract_scenario)
     \<noteq> Some [Some 6, Some 0]"
  by code_simp

text \<open>
  C7. The cleaning is idempotent: cleaning the cleaned table returns that same table.
\<close>

theorem clean_idempotent:
  "\<exists>out. cleaned parse t = Some out \<and> cleaned parse out = Some out"
proof -
  have "\<forall>p \<in> set (clean_spec parse t). \<exists>d j. publish_time p = PTime d \<and> year p = Some (ts_year d)
             \<and> abstract_word_count p = Some (word_count (abstract p)) \<and> journal p = Some j"
    by (auto dest!: clean_spec_rows simp: clean_row_def)
  then have "clean_spec parse (clean_spec parse t) = clean_spec parse t"
    by (rule clean_spec_fixed)
  then show ?thesis by (simp add: cleaned_eq)
qed

theorem clean_idempotent_witness:
  "cleaned iso_date date_scenario
     = Some [paper0\<lparr>title := Some ''second'', journal := Some ''Unknown'',
               publish_time := PTime \<lparr>ts_year = 2020, ts_month = 3, ts_day = 15\<rparr>,
               year := Some 2020, abstract_word_count := Some 0\<rparr>]
   \<and> cleaned iso_date
        [paper0\<lparr>title := Some ''second'', journal := Some ''Unknown'',
               publish_time := PTime \<lparr>ts_year = 2020, ts_month = 3, ts_day = 15\<rparr>,
               year := Some 2020, abstract_word_count := Some 0\<rparr>]
     = Some [paper0\<lparr>title := Some ''second'', journal := Some ''Unknown'',
               publish_time := PTime \<lparr>ts_year = 2020, ts_month = 3, ts_day = 15\<rparr>,
               year := Some 2020, abstract_word_count := Some 0\<rparr>]"
proof -
  have "cleaned iso_date date_scenario
     = Some [paper0\<lparr>title := Some ''second'', journal := Some ''Unknown'',
               publish_time := PTime \<lparr>ts_year = 2020, ts_month = 3, ts_day = 15\<rparr>,
               year := Some 2020, abstract_word_count := Some 0\<rparr>]"
    by code_simp
  with clean_idempotent [of iso_date date_scenario] show ?thesis
    by auto
qed

text \<open>
  C10. The cleaning does not change its argument: when the call returns, the object
  passed in, and every object that existed before the call, holds the table it held,
  and the result is a new object.
\<close>

theorem clean_no_mutation:
  assumes "df < length h"
  shows "\<exists>h' r. clean_and_prepare_data parse h df = Inr (h', r)
           \<and> h' ! df = h ! df \<and> take (length h) h' = h \<and> length h \<le> r \<and> r < length h'"
  using assms by (simp add: clean_store nth_append)

theorem clean_no_mutation_witness:
  "(0::nat) < length [date_scenario]
   \<and> (case clean_and_prepare_data iso_date [date_scenario] 0 of
        Inl e \<Rightarrow> False
      | Inr (h', r) \<Rightarrow> h' ! 0 = date_scenario \<and> take 1 h' = [date_scenario] \<and> 1 \<le> r)"
  using clean_no_mutation [of 0 "[date_scenario]" iso_date] by auto

section \<open>The aggregations: claims\<close>

text \<open>
  C2, as amended. For a table whose titles are "COVID-19 Disease Spread" and "Disease
  spread patterns", the title words counted with the stop words of the interactive
  surface are \<open>spread\<close> with count 2, \<open>covid19\<close> with count 1 and \<open>patterns\<close> with count
  1, in this order; each is longer than 3, alphanumeric and not a stop word.
\<close>

theorem title_words_example:
  assumes "map title df = [Some ''COVID-19 Disease Spread'', Some ''Disease spread patterns'']"
  shows "all_words app_stop_words df = [''covid19'', ''spread'', ''spread'', ''patterns'']
       \<and> top_words app_stop_words 20 df = [(''spread'', 2), (''covid19'', 1), (''patterns'', 1)]
       \<and> list_all (\<lambda>w. length w > 3 \<and> list_all isalnum w \<and> w \<notin> set app_stop_words)
            (all_words app_stop_words df)"
proof -
  have 1: "concat (map (\<lambda>title. filter (keep_word app_stop_words) (map (filter isalnum) (split (lower title))))
               (dropna [Some ''COVID-19 Disease Spread'', Some ''Disease spread patterns'']))
           = [''covid19'', ''spread'', ''spread'', ''patterns'']"
    by code_simp
  have 2: "most_common 20 (Counter [''covid19'', ''spread'', ''spread'', ''patterns''])
           = [(''spread'', 2), (''covid19'', 1), (''patterns'', 1)]"
    by code_simp
  have 3: "list_all (\<lambda>w. length w > 3 \<and> list_all isalnum w \<and> w \<notin> set app_stop_words)
            [''covid19'', ''spread'', ''spread'', ''patterns'']"
    by code_simp
  have w: "all_words app_stop_words df = [''covid19'', ''spread'', ''spread'', ''patterns'']"
    unfolding all_words_def assms by (rule 1)
  from 2 3 show ?thesis
    unfolding top_words_def w by (intro conjI refl)
qed

theorem title_words_example_witness:
  "map title title_scenario = [Some ''COVID-19 Disease Spread'', Some ''Disease spread patterns'']
   \<and> top_words app_stop_words 20 title_scenario = [(''spread'', 2), (''covid19'', 1), (''patterns'', 1)]"
proof -
  have t: "map title title_scenario = [Some ''COVID-19 Disease Spread'', Some ''Disease spread patterns'']"
    by (simp add: title_scenario_def)
  from title_words_example [OF t] t show ?thesis
    by (elim conjE) (intro conjI)
qed

text \<open>
  C2 as the specification states it has \<open>spread\<close> and \<open>patterns\<close> as the only tokens.
  The token "covid-19" loses its hyphen and becomes \<open>covid19\<close>, which is neither
  \<open>covid\<close> nor \<open>19\<close> and is counted.
\<close>

theorem title_words_counterexample:
  "set (top_words app_stop_words 20 title_scenario) \<noteq> {(''spread'', 2), (''patterns'', 1)}"
proof
  assume e: "set (top_words app_stop_words 20 title_scenario) = {(''spread'', 2), (''patterns'', 1)}"
  have "(''covid19'', 1) \<in> set (top_words app_stop_words 20 title_scenario)"
    by code_simp
  then have "(''covid19'', 1) \<in> {(''spread'', 2), (''patterns'', 1::nat)}"
    unfolding e .
  then show False by simp
qed

text \<open>
  C4. The claim is that on an empty table, or one whose grouping column is entirely
  absent, the batch analysis returns empty summaries and never raises. On the cleaned
  table of one record without a title, \<open>top_words\<close> is empty and \<open>perform_analysis\<close>
  raises ValueError at \<open>words, counts = zip(*top_words)\<close>. The interactive surface
  guards the same line and draws an empty chart.
\<close>

theorem perform_analysis_untitled:
  "cleaned iso_date [paper0] = Some untitled
   \<and> top_words stop_words 15 untitled = []
   \<and> perform_analysis untitled = Inl ValueError
   \<and> render_page Detailed_Analysis untitled
       = Inr [Count_chart ''Top 20 Words in Paper Titles'' [], Year_chart [(2020, 1)]]"
  by code_simp

text \<open>
  C5. For every table, each top-N summary (journals with N = 10; sources with N = 10
  in the batch analysis and N = 8 on the interactive surface; title words with K = 15
  and K = 20) has at most N entries, in descending order of count, and no count in it is
  below the count of a value it leaves out.
\<close>

theorem top_n_summaries:
  "top_n_of 10 (dropna (map journal df)) (top_journals df)
   \<and> top_n_of 10 (dropna (map source df)) (top_sources 10 df)
   \<and> top_n_of 8 (dropna (map source df)) (top_sources 8 df)
   \<and> top_n_of 15 (all_words stop_words df) (top_words stop_words 15 df)
   \<and> top_n_of 20 (all_words app_stop_words df) (top_words app_stop_words 20 df)"
  by (simp add: top_journals_def top_sources_def top_words_def head_def value_counts_def
      most_common_def top_n_of_take)

theorem top_n_summaries_witness:
  "top_sources 8 sample = [(''s9'', 2), (''s1'', 1), (''s2'', 1), (''s3'', 1), (''s4'', 1),
                           (''s5'', 1), (''s6'', 1), (''s7'', 1)]
   \<and> count_list (dropna (map source sample)) ''s8'' = 1
   \<and> length (top_sources 8 sample) \<le> 8
   \<and> sorted_wrt (\<lambda>a b. snd b \<le> snd a) (top_sources 8 sample)"
proof -
  have a: "top_sources 8 sample = [(''s9'', 2), (''s1'', 1), (''s2'', 1), (''s3'', 1), (''s4'', 1),
                           (''s5'', 1), (''s6'', 1), (''s7'', 1)]" by code_simp
  have b: "count_list (dropna (map source sample)) ''s8'' = 1" by code_simp
  from top_n_summaries [of sample]
  have "top_n_of 8 (dropna (map source sample)) (top_sources 8 sample)"
    by (elim conjE)
  then have c: "length (top_sources 8 sample) \<le> 8
      \<and> sorted_wrt (\<lambda>a b. snd b \<le> snd a) (top_sources 8 sample)"
    unfolding top_n_of_def by (elim conjE) (intro conjI)
  from a b c show ?thesis by (elim conjE) (intro conjI)
qed

text \<open>
  C6. For every cleaned table, the year counts give each year that occurs the number of
  records of that year, in ascending order of year, each year once, and the counts add
  up to the number of records.
\<close>

theorem year_counts:
  "\<exists>out. cleaned parse t = Some out
     \<and> sorted_wrt (<) (map fst (papers_by_year out))
     \<and> (\<forall>(y, n) \<in> set (papers_by_year out). n = length (filter (\<lambda>p. year p = Some y) out))
     \<and> (\<forall>p \<in> set out. \<exists>y. year p = Some y \<and> y \<in> set (map fst (papers_by_year out)))
     \<and> sum_list (map snd (papers_by_year out)) = length out"
proof -
  define out where "out = clean_spec parse t"
  have yr: "\<forall>p \<in> set out. year p \<noteq> None"
    unfolding out_def by (auto dest!: clean_spec_rows simp: clean_row_def)
  have 1: "sorted_wrt (<) (map fst (papers_by_year out))"
    by (rule papers_by_year_props)
  have 2: "\<forall>(y, n) \<in> set (papers_by_year out). n = length (filter (\<lambda>p. year p = Some y) out)"
    by (auto simp: papers_by_year_props(2))
  have 3: "\<forall>p \<in> set out. \<exists>y. year p = Some y \<and> y \<in> set (map fst (papers_by_year out))"
  proof
    fix p assume p: "p \<in> set out"
    with yr obtain y where y: "year p = Some y" by auto
    with p have "(y, length (filter (\<lambda>p. year p = Some y) out)) \<in> set (papers_by_year out)"
      by (auto simp: papers_by_year_props(2))
    then have "y \<in> set (map fst (papers_by_year out))" by force
    with y show "\<exists>y. year p = Some y \<and> y \<in> set (map fst (papers_by_year out))" by simp
  qed
  have 4: "sum_list (map snd (papers_by_year out)) = length out"
    using yr by (simp add: papers_by_year_props(3) length_dropna_all)
  have "cleaned parse t = Some out" by (simp add: cleaned_eq out_def)
  with 1 2 3 4 show ?thesis by blast
qed

theorem year_counts_witness:
  "cleaned iso_date sample = Some sample
   \<and> papers_by_year sample = [(2019, 2), (2020, 6), (2021, 2)]
   \<and> sum_list (map snd (papers_by_year sample)) = length sample"
proof -
  from year_counts [of iso_date sample] obtain out
    where o: "cleaned iso_date sample = Some out"
      and s: "sum_list (map snd (papers_by_year out)) = length out"
    by blast
  have c: "cleaned iso_date sample = Some sample" by code_simp
  have p: "papers_by_year sample = [(2019, 2), (2020, 6), (2021, 2)]" by code_simp
  from o c have "out = sample" by simp
  with s have "sum_list (map snd (papers_by_year sample)) = length sample" by simp
  with c p show ?thesis by (intro conjI)
qed

section \<open>The interactive surface: claims\<close>

text \<open>
  C8. For every loaded table, every list of selected journals and every year range,
  the filter keeps exactly the records whose journal is selected and whose year lies in
  the range, bounds included, and the sidebar shows the number of these records as
  "Filtered Papers".
\<close>

theorem interactive_filter:
  assumes "load_data parse fs = Inr (msgs, Some df)"
    and "app parse fs pg (lo, hi) S = Inr out"
  shows "df_filtered df (lo, hi) S
           = filter (\<lambda>p. (\<exists>y. year p = Some y \<and> lo \<le> y \<and> y \<le> hi)
                          \<and> (\<exists>j. journal p = Some j \<and> j \<in> set S)) df
       \<and> Sidebar_metric ''Filtered Papers''
            (length (filter (\<lambda>p. (\<exists>y. year p = Some y \<and> lo \<le> y \<and> y \<le> hi)
                                   \<and> (\<exists>j. journal p = Some j \<and> j \<in> set S)) df)) \<in> set out"
proof -
  from assms have "Sidebar_metric ''Filtered Papers'' (length (df_filtered df (lo, hi) S)) \<in> set out"
    by (auto simp: app_def Let_def split: sum.splits prod.splits)
  then show ?thesis by (simp only: df_filtered_filter simp_thms)
qed

theorem interactive_filter_witness:
  "load_data iso_date sample_files = Inr ([], Some sample)
   \<and> map source (filter (\<lambda>p. (\<exists>y. year p = Some y \<and> 2020 \<le> y \<and> y \<le> 2020)
                          \<and> (\<exists>j. journal p = Some j \<and> j \<in> set [''Lancet'', ''BMJ''])) sample)
       = [Some ''s1'', Some ''s3'', Some ''s9'']
   \<and> app iso_date sample_files Data_Sample (2020, 2020) [''Lancet'', ''BMJ'']
       = Inr [Sidebar_slider 2019 2021,
              Sidebar_multiselect [Some ''BMJ'', Some ''Cell'', Some ''Lancet'', Some ''Nature'',
                                   Some ''Unknown''],
              Sidebar_metric ''Filtered Papers'' 3,
              Sidebar_metric ''Total Papers'' 10,
              Sample_page (df_filtered sample (2020, 2020) [''Lancet'', ''BMJ''])]"
proof -
  have l: "load_data iso_date sample_files = Inr ([], Some sample)"
    by code_simp
  have a: "app iso_date sample_files Data_Sample (2020, 2020) [''Lancet'', ''BMJ'']
       = Inr [Sidebar_slider 2019 2021,
              Sidebar_multiselect [Some ''BMJ'', Some ''Cell'', Some ''Lancet'', Some ''Nature'',
                                   Some ''Unknown''],
              Sidebar_metric ''Filtered Papers'' 3,
              Sidebar_metric ''Total Papers'' 10,
              Sample_page (df_filtered sample (2020, 2020) [''Lancet'', ''BMJ''])]"
    by code_simp
  have m: "map source (df_filtered sample (2020, 2020) [''Lancet'', ''BMJ''])
             = [Some ''s1'', Some ''s3'', Some ''s9'']"
    by code_simp
  from interactive_filter [OF l a]
  have "df_filtered sample (2020, 2020) [''Lancet'', ''BMJ'']
          = filter (\<lambda>p. (\<exists>y. year p = Some y \<and> 2020 \<le> y \<and> y \<le> 2020)
                          \<and> (\<exists>j. journal p = Some j \<and> j \<in> set [''Lancet'', ''BMJ''])) sample"
    by (elim conjE)
  with m have "map source (filter (\<lambda>p. (\<exists>y. year p = Some y \<and> 2020 \<le> y \<and> y \<le> 2020)
                          \<and> (\<exists>j. journal p = Some j \<and> j \<in> set [''Lancet'', ''BMJ''])) sample)
       = [Some ''s1'', Some ''s3'', Some ''s9'']"
    by (simp only:)
  with l a show ?thesis by (intro conjI)
qed

text \<open>
  C9. When the persisted cleaned table does not exist, \<open>load_data\<close> reports the message
  that asks to run the analysis script first and returns no table, and the surface
  shows this message and nothing else.
\<close>

theorem missing_file:
  assumes "fs ''cord19_cleaned.csv'' = None"
  shows "load_data parse fs = Inr ([St_error missing_file_message], None)
       \<and> app parse fs pg year_range selected_journals = Inr [St_error missing_file_message]"
  using assms by (simp add: app_def load_data_def read_csv_def)

theorem missing_file_witness:
  "no_files ''cord19_cleaned.csv'' = None
   \<and> load_data iso_date no_files = Inr ([St_error missing_file_message], None)
   \<and> app iso_date no_files Dashboard (2020, 2020) [] = Inr [St_error missing_file_message]"
  using missing_file [of no_files iso_date Dashboard "(2020, 2020)" "[]"]
  by (simp add: no_files_def)

end
